theory Spec2Isabelle
  imports Complex_Main
begin

section \<open>Python values and errors\<close>

text \<open>
  The demo is one Python file, \<^verbatim>\<open>hue_breathing_demo.py\<close>. Energy readings and clock
  readings are Python floats; they are modelled as exact rationals, so the theorems below
  are about the arithmetic the code writes down, not about binary rounding. Brightness,
  hue, key codes and the window capacity are Python's unbounded integers.
\<close>

datatype py_error = ZeroDivisionError | ValueError | IndexError | NameError | ZMQError

text \<open>\<^verbatim>\<open>int(x)\<close> on a float truncates toward zero.\<close>

definition py_int :: "rat \<Rightarrow> int" where
  "py_int x = (if x < 0 then \<lceil>x\<rceil> else \<lfloor>x\<rfloor>)"

text \<open>
  \<^verbatim>\<open>xs[i:]\<close>: a negative start counts from the end and is clipped at the front of the
  list, a start beyond the end gives the empty list. In particular \<^verbatim>\<open>xs[-0:]\<close> is the
  whole list.
\<close>

definition slice_from :: "'a list \<Rightarrow> int \<Rightarrow> 'a list" where
  "slice_from xs i =
     (if i < 0 then drop (nat (int (length xs) + i)) xs else drop (nat i) xs)"

text \<open>\<^verbatim>\<open>xs.pop(0)\<close>, keeping the list that is left; it raises on an empty list.\<close>

definition pop0 :: "'a list \<Rightarrow> py_error + 'a list" where
  "pop0 xs = (case xs of [] \<Rightarrow> Inl IndexError | _ # ys \<Rightarrow> Inr ys)"

text \<open>\<^verbatim>\<open>max(xs)\<close> raises \<^verbatim>\<open>ValueError\<close> on an empty list.\<close>

fun max_from :: "rat \<Rightarrow> rat list \<Rightarrow> rat" where
  "max_from m [] = m"
| "max_from m (x # xs) = max_from (if x > m then x else m) xs"

definition py_max :: "rat list \<Rightarrow> py_error + rat" where
  "py_max xs = (case xs of [] \<Rightarrow> Inl ValueError | x # ys \<Rightarrow> Inr (max_from x ys))"

section \<open>The control loop: \<^verbatim>\<open>breath_loop\<close>\<close>

subsection \<open>Rolling energy log (lines 205 to 210)\<close>

text \<open>
  \<^verbatim>\<open>
  if len(energy_log) <= samples:
      energy_log.append(enrg)
  if len(energy_log) == samples + 1:
      energy_log.pop(0)
  if len(energy_log) > samples:
      energy_log = energy_log[-samples:]
  \<close>
\<close>

definition append_sample :: "rat list \<Rightarrow> int \<Rightarrow> rat \<Rightarrow> rat list" where
  "append_sample energy_log samples enrg =
     (if int (length energy_log) \<le> samples then energy_log @ [enrg] else energy_log)"

definition evict_oldest :: "rat list \<Rightarrow> int \<Rightarrow> py_error + rat list" where
  "evict_oldest energy_log samples =
     (if int (length energy_log) = samples + 1 then pop0 energy_log else Inr energy_log)"

definition truncate_log :: "rat list \<Rightarrow> int \<Rightarrow> rat list" where
  "truncate_log energy_log samples =
     (if int (length energy_log) > samples then slice_from energy_log (- samples)
      else energy_log)"

definition update_energy_log :: "rat list \<Rightarrow> int \<Rightarrow> rat \<Rightarrow> py_error + rat list" where
  "update_energy_log energy_log samples enrg =
     (case evict_oldest (append_sample energy_log samples enrg) samples of
        Inl e \<Rightarrow> Inl e
      | Inr log' \<Rightarrow> Inr (truncate_log log' samples))"

subsection \<open>Events visible outside the two processes\<close>

datatype event =
    SendString string
  | SendPyobj rat
  | Trigger
  | SetLight string int
  | Sleep rat
  | Print string
  | PrintSamples int
  | Join
  | Terminate

subsection \<open>Brightness and hue of one iteration (lines 213 to 243)\<close>

text \<open>\<^verbatim>\<open>enrg = sum(energy_log[-3:]) / 3\<close>\<close>

definition smooth_enrg :: "rat list \<Rightarrow> rat" where
  "smooth_enrg energy_log = sum_list (slice_from energy_log (- 3)) / 3"

text \<open>
  \<^verbatim>\<open>bri = int(195 * ((enrg - min_enrg) / (max_enrg - min_enrg)) + 60)\<close> with
  \<^verbatim>\<open>min_enrg = 0\<close>. A float division by zero raises in Python.
\<close>

definition normalize_bri :: "rat \<Rightarrow> rat \<Rightarrow> py_error + int" where
  "normalize_bri enrg max_enrg =
     (let min_enrg = 0 in
      if max_enrg - min_enrg = 0 then Inl ZeroDivisionError
      else Inr (py_int (195 * ((enrg - min_enrg) / (max_enrg - min_enrg)) + 60)))"

text \<open>
  \<^verbatim>\<open>
  if time.time() - last_peak > 13 or max_enrg < 0.0002:
      hue = 65000
  else:
      hue = 43690 + 1600 * int(time.time() - last_peak)
  hue = 65000 if hue > 65000 else hue
  \<close>
  The clock is read once in the condition (\<open>now_cond\<close>) and once more in the else branch
  (\<open>now_hue\<close>).
\<close>

definition compute_hue :: "rat \<Rightarrow> rat \<Rightarrow> rat \<Rightarrow> rat \<Rightarrow> int" where
  "compute_hue last_peak now_cond now_hue max_enrg =
     (let hue = (if now_cond - last_peak > 13 \<or> max_enrg < 2 / 10000 then 65000
                 else 43690 + 1600 * py_int (now_hue - last_peak))
      in if hue > 65000 then 65000 else hue)"

text \<open>
  \<^verbatim>\<open>bri += int((hue - 43690) / 42); bri = 255 if bri > 255 else bri\<close>, where
  \<^verbatim>\<open>/\<close> is Python 3's true division.
\<close>

definition boost_bri :: "int \<Rightarrow> int \<Rightarrow> int" where
  "boost_bri bri hue =
     (let bri' = bri + py_int (rat_of_int (hue - 43690) / 42)
      in if bri' > 255 then 255 else bri')"

text \<open>The sample, clock readings and key codes one iteration may consume.\<close>

record iter_input =
  recv_enrg :: rat
  now_peak :: rat
  now_cond :: rat
  now_hue :: rat
  getch1 :: int
  getch2 :: int

record target =
  t_bri :: int
  t_hue :: int
  t_last_peak :: rat

definition compute_target :: "rat list \<Rightarrow> rat \<Rightarrow> iter_input \<Rightarrow> py_error + target" where
  "compute_target energy_log last_peak inp =
     (let enrg = smooth_enrg energy_log in
      case py_max energy_log of
        Inl e \<Rightarrow> Inl e
      | Inr max_enrg \<Rightarrow>
          (case normalize_bri enrg max_enrg of
             Inl e \<Rightarrow> Inl e
           | Inr bri \<Rightarrow>
               (let last_peak' = (if bri > 90 then now_peak inp else last_peak);
                    hue = compute_hue last_peak' (now_cond inp) (now_hue inp) max_enrg
                in Inr \<lparr>t_bri = boost_bri bri hue, t_hue = hue,
                         t_last_peak = last_peak'\<rparr>)))"

subsection \<open>Lamp commands (lines 246 to 253)\<close>

definition send_lamp :: "int \<Rightarrow> int \<Rightarrow> int \<Rightarrow> int \<times> event list" where
  "send_lamp bri hue prev_bri =
     (if \<bar>bri - prev_bri\<bar> > 2
      then (bri, [SetLight ''bri'' bri, Sleep (1 / 10), SetLight ''hue'' hue, Sleep (1 / 10)])
      else (prev_bri, []))"

subsection \<open>Key presses (lines 266 to 297)\<close>

definition SAMPLES :: int where
  "SAMPLES = 60"

text \<open>
  \<open>key\<close> is the first \<^verbatim>\<open>getch()\<close> of the iteration (\<open>-1\<close> when no key is waiting),
  \<open>key2\<close> the second one, read only after the prefix code 224 of a special key.
\<close>

definition handle_key :: "int \<Rightarrow> int \<Rightarrow> bool \<Rightarrow> int \<Rightarrow> (bool \<times> int) \<times> event list" where
  "handle_key key key2 active samples =
     (if key \<noteq> - 1 then
        (let active1 = (if key = 113 then False else active);
             samples1 = (if key = 32 then SAMPLES else samples);
             ev1 = (if key = 32 then [PrintSamples samples1] else [])
         in if key = 224 then
              (let samples2 = (if key2 = 72
                               then (if samples1 + 10 > 250 then 250 else samples1 + 10)
                               else samples1);
                   samples3 = (if key2 = 80
                               then (if samples2 - 10 < 10 then 10 else samples2 - 10)
                               else samples2)
               in ((active1, samples3), ev1 @ [PrintSamples samples3]))
            else ((active1, samples1), ev1))
      else ((active, samples), []))"

subsection \<open>One iteration and the loop\<close>

record loop_state =
  energy_log :: "rat list"
  samples :: int
  prev_bri :: int
  hue :: int
  last_peak :: rat
  active :: bool

definition breath_iter :: "iter_input \<Rightarrow> loop_state \<Rightarrow> py_error + (loop_state \<times> event list)" where
  "breath_iter inp s =
     (case update_energy_log (energy_log s) (samples s) (recv_enrg inp) of
        Inl e \<Rightarrow> Inl e
      | Inr log' \<Rightarrow>
          (case compute_target log' (last_peak s) inp of
             Inl e \<Rightarrow> Inl e
           | Inr tg \<Rightarrow>
               (let (prev_bri', lamp) = send_lamp (t_bri tg) (t_hue tg) (prev_bri s);
                    ((active', samples'), keys) =
                       handle_key (getch1 inp) (getch2 inp) (active s) (samples s)
                in Inr (\<lparr>energy_log = log', samples = samples', prev_bri = prev_bri',
                          hue = t_hue tg, last_peak = t_last_peak tg, active = active'\<rparr>,
                        SendString ''energy'' # lamp @ keys))))"

text \<open>
  The lamp commands sent before the loop (lines 171 to 182): the lamp is switched on
  (\<^verbatim>\<open>True\<close> is written 1) and set to brightness 150, hue 43690 and saturation 250.
\<close>

definition breath_setup :: "event list" where
  "breath_setup =
     [SetLight ''on'' 1, SetLight ''bri'' 150, SetLight ''hue'' 43690, SetLight ''sat'' 250]"

text \<open>
  The state after the five blocking round trips that fill the log before the loop;
  \<open>now\<close> is the clock reading stored in \<^verbatim>\<open>last_peak\<close>.
\<close>

definition breath_init :: "rat list \<Rightarrow> rat \<Rightarrow> loop_state" where
  "breath_init replies now =
     \<lparr>energy_log = take 5 replies, samples = SAMPLES, prev_bri = 0, hue = 43690,
      last_peak = now, active = True\<rparr>"

text \<open>
  \<^verbatim>\<open>while active:\<close> over the inputs the environment supplies, one per iteration. The
  loop stops when \<^verbatim>\<open>active\<close> is false, and an exception leaves it.
\<close>

fun breath_loop :: "iter_input list \<Rightarrow> loop_state \<Rightarrow> py_error + (loop_state \<times> event list)" where
  "breath_loop [] s = Inr (s, [])"
| "breath_loop (inp # inps) s =
     (if \<not> active s then Inr (s, [])
      else case breath_iter inp s of
             Inl e \<Rightarrow> Inl e
           | Inr (s', ev) \<Rightarrow>
               (case breath_loop inps s' of
                  Inl e \<Rightarrow> Inl e
                | Inr (s'', ev') \<Rightarrow> Inr (s'', ev @ ev')))"

section \<open>The acquisition service: \<^verbatim>\<open>WalaServer.run\<close> (lines 111 to 138)\<close>

text \<open>
  \<open>energy = None\<close> models the local variable \<^verbatim>\<open>energy\<close> before its first assignment;
  reading it then raises \<^verbatim>\<open>UnboundLocalError\<close>, a subclass of \<^verbatim>\<open>NameError\<close>.
  \<open>reply_pending\<close> is the state of the reply socket of line 105 (\<^verbatim>\<open>zmq.REP\<close>): such a
  socket alternates strictly between receiving a request and sending its reply.
\<close>

record server_state =
  capture :: bool
  energy :: "rat option"
  reply_pending :: bool

definition server_init :: server_state where
  "server_init = \<lparr>capture = True, energy = None, reply_pending = False\<rparr>"

text \<open>
  \<^verbatim>\<open>recv_string(flags=zmq.NOBLOCK)\<close> on the reply socket. \<open>wire\<close> is the request waiting
  on the connection, if any. While a reply is owed the call fails with \<^verbatim>\<open>ZMQError\<close>
  (state error), which is not \<^verbatim>\<open>zmq.error.Again\<close>; otherwise it returns the request,
  or \<open>None\<close> for \<^verbatim>\<open>zmq.error.Again\<close> when nothing is waiting.
\<close>

definition rep_recv :: "string option \<Rightarrow> server_state \<Rightarrow> py_error + (string option \<times> server_state)" where
  "rep_recv wire s =
     (if reply_pending s then Inl ZMQError
      else case wire of
             None \<Rightarrow> Inr (None, s)
           | Some m \<Rightarrow> Inr (Some m, s\<lparr>reply_pending := True\<rparr>))"

text \<open>A send on the reply socket: it needs a request to answer.\<close>

definition rep_send :: "server_state \<Rightarrow> py_error + server_state" where
  "rep_send s = (if reply_pending s then Inr (s\<lparr>reply_pending := False\<rparr>) else Inl ZMQError)"

text \<open>
  One pass of the loop body. \<open>reading\<close> is what \<^verbatim>\<open>GetImageEnergy()\<close> would return in
  this pass. The variable \<^verbatim>\<open>message\<close> holds the empty string on entry to every pass.
  Only \<^verbatim>\<open>zmq.error.Again\<close> is caught; every other exception leaves the loop.
\<close>

definition server_iter :: "string option \<Rightarrow> rat \<Rightarrow> server_state \<Rightarrow> py_error + (server_state \<times> event list)" where
  "server_iter wire reading s =
     (case rep_recv wire s of
        Inl err \<Rightarrow> Inl err
      | Inr (got, s0) \<Rightarrow>
          (let (message, s1, ev1) =
                 (case got of
                    None \<Rightarrow> ([], s0\<lparr>energy := Some reading\<rparr>, [Trigger])
                  | Some m \<Rightarrow> (m, s0, []))
           in if message = ''stop'' then Inr (s1\<lparr>capture := False\<rparr>, ev1)
              else if message = ''energy'' then
                (case energy s1 of
                   None \<Rightarrow> Inl NameError
                 | Some e \<Rightarrow>
                     (case rep_send s1 of
                        Inl err \<Rightarrow> Inl err
                      | Inr s2 \<Rightarrow> Inr (s2, ev1 @ [SendPyobj e])))
              else Inr (s1, ev1)))"

fun server_loop :: "(string option \<times> rat) list \<Rightarrow> server_state \<Rightarrow> py_error + (server_state \<times> event list)" where
  "server_loop [] s = Inr (s, [])"
| "server_loop ((wire, reading) # rest) s =
     (if \<not> capture s then Inr (s, [])
      else case server_iter wire reading s of
             Inl e \<Rightarrow> Inl e
           | Inr (s', ev) \<Rightarrow>
               (case server_loop rest s' of
                  Inl e \<Rightarrow> Inl e
                | Inr (s'', ev') \<Rightarrow> Inr (s'', ev @ ev')))"

text \<open>
  The whole of \<^verbatim>\<open>run\<close> after setup, on a finite supply of inputs: \<open>None\<close> when the
  inputs end with the loop still capturing, otherwise the events including the final
  \<^verbatim>\<open>send_string('stopped')\<close>.
\<close>

definition server_run :: "(string option \<times> rat) list \<Rightarrow> py_error + event list option" where
  "server_run inputs =
     (case server_loop inputs server_init of
        Inl e \<Rightarrow> Inl e
      | Inr (s, ev) \<Rightarrow>
          (if capture s then Inr None
           else case rep_send s of
                  Inl err \<Rightarrow> Inl err
                | Inr _ \<Rightarrow> Inr (Some (ev @ [SendString ''stopped'']))))"

section \<open>Shutdown in \<^verbatim>\<open>__main__\<close> (lines 331 to 343)\<close>

text \<open>
  \<open>stopped\<close> is the reply received after sending \<^verbatim>\<open>'stop'\<close>; the result is the events of
  the client and the exit code of the process.
\<close>

definition shutdown :: "string \<Rightarrow> event list \<times> int" where
  "shutdown stopped =
     (if stopped = ''stopped''
      then ([SendString ''stop'', Join, Print ''Done!''], 0)
      else ([SendString ''stop'', Terminate], 1))"

section \<open>Notions used to state the properties\<close>

text \<open>
  The specification's brightness formula, with rounding to the nearest integer (halves
  upward; at 157.5 rounding half to even or half away from zero gives 158 as well).
\<close>

definition spec_round :: "rat \<Rightarrow> int" where
  "spec_round x = \<lfloor>x + 1 / 2\<rfloor>"

definition spec_brightness :: "rat \<Rightarrow> rat \<Rightarrow> int" where
  "spec_brightness smoothed max_enrg = spec_round (195 * (smoothed - 0) / (max_enrg - 0) + 60)"

text \<open>The most recent \<open>n\<close> elements of a list (all of it when it is shorter).\<close>

definition last_n :: "int \<Rightarrow> 'a list \<Rightarrow> 'a list" where
  "last_n n xs = drop (length xs - nat n) xs"

text \<open>
  The specification's window update: append the sample, then keep the most recent
  \<open>cap\<close> samples.
\<close>

definition spec_append_then_enforce :: "rat list \<Rightarrow> int \<Rightarrow> rat \<Rightarrow> rat list" where
  "spec_append_then_enforce w cap x = last_n cap (w @ [x])"

text \<open>The lamp traffic among the events of an iteration: bridge calls and their delays.\<close>

definition lamp_cmds :: "event list \<Rightarrow> event list" where
  "lamp_cmds ev =
     filter (\<lambda>e. case e of SetLight _ _ \<Rightarrow> True | Sleep _ \<Rightarrow> True | _ \<Rightarrow> False) ev"


text \<open>The brightness most recently sent to the lamp in a sequence of events, if any.\<close>

fun last_sent_bri :: "event list \<Rightarrow> int option" where
  "last_sent_bri [] = None"
| "last_sent_bri (e # es) =
     (case last_sent_bri es of
        Some b \<Rightarrow> Some b
      | None \<Rightarrow> (case e of SetLight a v \<Rightarrow> if a = ''bri'' then Some v else None | _ \<Rightarrow> None))"

section \<open>Auxiliary facts\<close>

lemma slice_from_neg: "0 < n \<Longrightarrow> slice_from xs (- n) = drop (length xs - nat n) xs"
  by (auto simp: slice_from_def nat_diff_distrib' intro: arg_cong[where f="\<lambda>k. drop k xs"])

lemma slice_from_subset: "set (slice_from xs i) \<subseteq> set xs"
  by (auto simp: slice_from_def dest: in_set_dropD)

lemma slice3_length: "length (slice_from xs (- 3)) \<le> 3"
  by (simp add: slice_from_def)

lemma py_int_nonneg: "0 \<le> x \<Longrightarrow> py_int x = \<lfloor>x\<rfloor>"
  by (simp add: py_int_def)

lemma max_from_ge: "m \<le> max_from m xs"
  by (induction xs arbitrary: m) (auto intro: order_trans less_imp_le)

lemma max_from_upper: "x \<in> set xs \<Longrightarrow> x \<le> max_from m xs"
proof (induction xs arbitrary: m)
  case Nil
  then show ?case by simp
next
  case (Cons y ys)
  show ?case
  proof (cases "x = y")
    case True
    have "y \<le> (if y > m then y else m)" by simp
    also have "\<dots> \<le> max_from (if y > m then y else m) ys" by (rule max_from_ge)
    finally show ?thesis using True by simp
  next
    case False
    with Cons.prems have "x \<in> set ys" by simp
    then show ?thesis using Cons.IH by simp
  qed
qed

lemma max_from_mem: "max_from m xs \<in> set (m # xs)"
  by (induction xs arbitrary: m) auto

lemma py_max_upper: "py_max xs = Inr m \<Longrightarrow> x \<in> set xs \<Longrightarrow> x \<le> m"
  by (cases xs) (auto simp: py_max_def max_from_ge max_from_upper)

lemma py_max_mem: "py_max xs = Inr m \<Longrightarrow> m \<in> set xs"
  using max_from_mem by (cases xs) (auto simp: py_max_def)

lemma py_max_zero:
  assumes "w \<noteq> []" "\<forall>x\<in>set w. x = 0"
  shows "py_max w = Inr 0"
proof -
  from assms(1) obtain y ys where w: "w = y # ys" by (cases w) auto
  have "max_from y ys \<in> set (y # ys)" by (rule max_from_mem)
  with assms(2) w have "max_from y ys = 0" by blast
  then show ?thesis using w by (simp add: py_max_def)
qed

lemma sum_list_bounds:
  fixes xs :: "rat list"
  assumes "\<forall>x\<in>set xs. 0 \<le> x \<and> x \<le> m"
  shows "0 \<le> sum_list xs \<and> sum_list xs \<le> of_nat (length xs) * m"
  using assms by (induction xs) (auto simp: algebra_simps)

lemma smooth_bounds:
  assumes "py_max xs = Inr m" "\<forall>x\<in>set xs. 0 \<le> x"
  shows "0 \<le> smooth_enrg xs \<and> smooth_enrg xs \<le> m"
proof -
  let ?ys = "slice_from xs (- 3)"
  have m0: "0 \<le> m" using assms py_max_mem by blast
  have "\<forall>x\<in>set ?ys. 0 \<le> x \<and> x \<le> m"
    using assms slice_from_subset[of xs "- 3"] py_max_upper by blast
  then have b: "0 \<le> sum_list ?ys \<and> sum_list ?ys \<le> of_nat (length ?ys) * m"
    by (rule sum_list_bounds)
  have "of_nat (length ?ys) * m \<le> 3 * m"
    using slice3_length[of xs] m0
    by (intro mult_right_mono) (simp_all add: of_nat_le_iff[where 'a=rat, of _ 3, simplified])
  with b show ?thesis by (simp add: smooth_enrg_def)
qed

lemma update_le:
  assumes "0 < cap" "int (length w) \<le> cap"
  shows "update_energy_log w cap x =
         Inr (if int (length w) < cap then w @ [x] else tl w @ [x])"
  using assms
  by (cases w)
    (auto simp: update_energy_log_def append_sample_def evict_oldest_def truncate_log_def
      pop0_def)

lemma update_gt:
  assumes "0 < cap" "int (length w) > cap"
  shows "update_energy_log w cap x = Inr (drop (length w - nat cap) w)"
proof (cases "int (length w) = cap + 1")
  case True
  with assms(1) have "w \<noteq> []" by auto
  then obtain y ys where w: "w = y # ys" by (cases w) auto
  with True have "int (length ys) = cap" by simp
  then have "nat cap = length ys" by simp
  then show ?thesis using assms True w
    by (simp add: update_energy_log_def append_sample_def evict_oldest_def truncate_log_def
        pop0_def)
next
  case False
  then show ?thesis using assms
    by (simp add: update_energy_log_def append_sample_def evict_oldest_def truncate_log_def
        slice_from_neg)
qed

lemma update_shape:
  assumes "0 < cap"
  shows "\<exists>w'. update_energy_log w cap x = Inr w' \<and> w' \<noteq> [] \<and> set w' \<subseteq> insert x (set w)"
proof (cases "int (length w) \<le> cap")
  case True
  then show ?thesis using assms
    by (cases w) (auto simp: update_le)
next
  case False
  then have gt: "int (length w) > cap" by simp
  then have "length w - nat cap < length w" using assms by linarith
  then have "drop (length w - nat cap) w \<noteq> []" by simp
  moreover have "set (drop (length w - nat cap) w) \<subseteq> insert x (set w)"
    using set_drop_subset[of "length w - nat cap" w] by auto
  ultimately show ?thesis using assms gt by (simp add: update_gt)
qed

lemma breath_iter_InrD:
  assumes "breath_iter inp s = Inr (s', ev)"
  shows "\<exists>tg. update_energy_log (energy_log s) (samples s) (recv_enrg inp) = Inr (energy_log s')
       \<and> compute_target (energy_log s') (last_peak s) inp = Inr tg
       \<and> hue s' = t_hue tg \<and> last_peak s' = t_last_peak tg
       \<and> prev_bri s' = fst (send_lamp (t_bri tg) (t_hue tg) (prev_bri s))
       \<and> ev = SendString ''energy'' # snd (send_lamp (t_bri tg) (t_hue tg) (prev_bri s))
                @ snd (handle_key (getch1 inp) (getch2 inp) (active s) (samples s))"
  using assms
  by (auto simp: breath_iter_def Let_def split: sum.splits prod.splits)


lemma lamp_cmds_keys: "lamp_cmds (snd (handle_key k1 k2 a n)) = []"
  by (simp add: handle_key_def lamp_cmds_def Let_def)

lemma lamp_cmds_send: "lamp_cmds (snd (send_lamp b h p)) = snd (send_lamp b h p)"
  by (simp add: send_lamp_def lamp_cmds_def)




lemma breath_iter_InrI:
  assumes "update_energy_log (energy_log s) (samples s) (recv_enrg inp) = Inr w'"
    and "compute_target w' (last_peak s) inp = Inr tg"
  shows "\<exists>s' ev. breath_iter inp s = Inr (s', ev)
       \<and> energy_log s' = w' \<and> hue s' = t_hue tg \<and> last_peak s' = t_last_peak tg
       \<and> prev_bri s' = fst (send_lamp (t_bri tg) (t_hue tg) (prev_bri s))
       \<and> ev = SendString ''energy'' # snd (send_lamp (t_bri tg) (t_hue tg) (prev_bri s))
                @ snd (handle_key (getch1 inp) (getch2 inp) (active s) (samples s))"
  using assms by (simp add: breath_iter_def Let_def split: prod.splits)

lemma last_sent_bri_append:
  "last_sent_bri (xs @ ys) =
     (case last_sent_bri ys of Some b \<Rightarrow> Some b | None \<Rightarrow> last_sent_bri xs)"
  by (induction xs) (auto split: option.splits)

lemma last_sent_bri_keys: "last_sent_bri (snd (handle_key k1 k2 a n)) = None"
  by (simp add: handle_key_def Let_def)

lemma last_sent_bri_send:
  "(case last_sent_bri (snd (send_lamp b h p)) of None \<Rightarrow> p | Some c \<Rightarrow> c)
     = fst (send_lamp b h p)"
  by (simp add: send_lamp_def)

lemma breath_iter_prev_bri:
  assumes "breath_iter inp s = Inr (s', ev)"
  shows "prev_bri s' = (case last_sent_bri ev of None \<Rightarrow> prev_bri s | Some b \<Rightarrow> b)"
proof -
  from breath_iter_InrD[OF assms] obtain tg where
    all: "update_energy_log (energy_log s) (samples s) (recv_enrg inp) = Inr (energy_log s')
       \<and> compute_target (energy_log s') (last_peak s) inp = Inr tg
       \<and> hue s' = t_hue tg \<and> last_peak s' = t_last_peak tg
       \<and> prev_bri s' = fst (send_lamp (t_bri tg) (t_hue tg) (prev_bri s))
       \<and> ev = SendString ''energy'' # snd (send_lamp (t_bri tg) (t_hue tg) (prev_bri s))
                @ snd (handle_key (getch1 inp) (getch2 inp) (active s) (samples s))" ..
  then have p: "prev_bri s' = fst (send_lamp (t_bri tg) (t_hue tg) (prev_bri s))"
    and e: "ev = SendString ''energy'' # snd (send_lamp (t_bri tg) (t_hue tg) (prev_bri s))
                @ snd (handle_key (getch1 inp) (getch2 inp) (active s) (samples s))"
    by simp_all
  have "last_sent_bri ev = last_sent_bri (snd (send_lamp (t_bri tg) (t_hue tg) (prev_bri s)))"
    unfolding e
    by (simp add: last_sent_bri_append last_sent_bri_keys split: option.splits)
  then show ?thesis
    using p last_sent_bri_send[where b = "t_bri tg" and h = "t_hue tg" and p = "prev_bri s"] by simp
qed

lemma breath_loop_prev_bri:
  assumes "breath_loop inps s = Inr (s', ev)"
  shows "prev_bri s' = (case last_sent_bri ev of None \<Rightarrow> prev_bri s | Some b \<Rightarrow> b)"
  using assms
proof (induction inps arbitrary: s s' ev)
  case Nil
  then show ?case by simp
next
  case (Cons inp inps)
  show ?case
  proof (cases "active s")
    case False
    with Cons.prems show ?thesis by simp
  next
    case True
    with Cons.prems obtain s1 ev1 s2 ev2 where
      i: "breath_iter inp s = Inr (s1, ev1)" and
      l: "breath_loop inps s1 = Inr (s2, ev2)" and
      r: "s' = s2" "ev = ev1 @ ev2"
      by (auto split: sum.splits)
    from breath_iter_prev_bri[OF i] Cons.IH[OF l] r show ?thesis
      by (simp add: last_sent_bri_append split: option.splits)
  qed
qed

lemma server_iter_energy:
  assumes "server_iter wire r s = Inr (s', ev)"
  shows "(energy s' = None) = (energy s = None \<and> Trigger \<notin> set ev)"
  using assms
  by (auto simp: server_iter_def rep_recv_def rep_send_def split: option.splits if_splits)

lemma server_loop_energy:
  assumes "server_loop inputs s = Inr (s', ev)"
  shows "(energy s' = None) = (energy s = None \<and> Trigger \<notin> set ev)"
  using assms
proof (induction inputs arbitrary: s s' ev)
  case Nil
  then show ?case by simp
next
  case (Cons a inputs)
  obtain wire r where a: "a = (wire, r)" by (cases a)
  show ?case
  proof (cases "capture s")
    case False
    with Cons.prems a show ?thesis by simp
  next
    case True
    with Cons.prems a obtain s1 ev1 s2 ev2 where
      i: "server_iter wire r s = Inr (s1, ev1)" and
      l: "server_loop inputs s1 = Inr (s2, ev2)" and
      r: "s' = s2" "ev = ev1 @ ev2"
      by (auto split: sum.splits)
    from server_iter_energy[OF i] Cons.IH[OF l] r show ?thesis by auto
  qed
qed

lemma server_iter_pending:
  "reply_pending s \<Longrightarrow> server_iter wire r s = Inl ZMQError"
  by (simp add: server_iter_def rep_recv_def)

section \<open>Brightness normalisation\<close>

text \<open>
  Claim C1, as the code has it. For a window of non-negative samples whose maximum \<open>m\<close>
  is positive, the brightness before the hue boost is \<open>195 * (smoothed / m) + 60\<close>
  truncated to an integer (\<^verbatim>\<open>int(...)\<close>, not rounded), and it lies in \<open>[60, 255]\<close>. For
  smoothed = 0.0004 and maximum = 0.0008 the value 157.5 truncates to 157.
\<close>

theorem brightness_truncated:
  assumes "py_max w = Inr m" and "0 < m" and "\<forall>x\<in>set w. 0 \<le> x"
  shows "normalize_bri (smooth_enrg w) m = Inr \<lfloor>195 * (smooth_enrg w / m) + 60\<rfloor>
         \<and> 60 \<le> \<lfloor>195 * (smooth_enrg w / m) + 60\<rfloor>
         \<and> \<lfloor>195 * (smooth_enrg w / m) + 60\<rfloor> \<le> 255
         \<and> normalize_bri (4 / 10000) (8 / 10000) = Inr 157"
proof -
  let ?q = "smooth_enrg w / m"
  from smooth_bounds[OF assms(1) assms(3)]
  have sb: "0 \<le> smooth_enrg w" "smooth_enrg w \<le> m" by simp_all
  have q0: "0 \<le> ?q" using sb(1) assms(2) by simp
  have q1: "?q \<le> 1" using sb(2) assms(2) by simp
  have lo: "(60::rat) \<le> 195 * ?q + 60" using q0 by simp
  have hi: "195 * ?q + 60 \<le> (255::rat)" using q1 by simp
  have "normalize_bri (smooth_enrg w) m = Inr (py_int (195 * ?q + 60))"
    using assms(2) by (simp add: normalize_bri_def)
  moreover have "py_int (195 * ?q + 60) = \<lfloor>195 * ?q + 60\<rfloor>"
    using lo by (intro py_int_nonneg) linarith
  moreover have "60 \<le> \<lfloor>195 * ?q + 60\<rfloor>"
    using lo by (simp add: le_floor_iff)
  moreover have "\<lfloor>195 * ?q + 60\<rfloor> \<le> 255"
    using hi by (simp add: floor_le_iff)
  moreover have "normalize_bri (4 / 10000) (8 / 10000) = Inr 157"
    by (simp add: normalize_bri_def py_int_def floor_eq_iff)
  ultimately show ?thesis by simp
qed

text \<open>
  The window \<open>[0.0008, 0.0002, 0.0002]\<close> has maximum 0.0008 and smoothed value 0.0004,
  and its brightness is 157.
\<close>

theorem brightness_truncated_witness:
  "py_max [8 / 10000, 2 / 10000, 2 / 10000] = Inr (8 / 10000)
   \<and> smooth_enrg [8 / 10000, 2 / 10000, 2 / 10000] = 4 / 10000
   \<and> normalize_bri (smooth_enrg [8 / 10000, 2 / 10000, 2 / 10000]) (8 / 10000) = Inr 157"
proof -
  have m: "py_max [8 / 10000, 2 / 10000, 2 / 10000] = Inr (8 / 10000)"
    by (simp add: py_max_def)
  have s: "smooth_enrg [8 / 10000, 2 / 10000, 2 / 10000] = 4 / 10000"
    by (simp add: smooth_enrg_def slice_from_def)
  have p: "(0::rat) < 8 / 10000" by simp
  have n: "\<forall>x\<in>set [8 / 10000, 2 / 10000, 2 / 10000 :: rat]. 0 \<le> x" by simp
  have "normalize_bri (smooth_enrg [8 / 10000, 2 / 10000, 2 / 10000]) (8 / 10000) = Inr 157"
    using brightness_truncated[OF m p n] unfolding s by blast
  with m s show ?thesis by simp
qed

text \<open>
  The claim's own example: the code computes 157 where rounding, as the claim has it,
  gives 158.
\<close>

theorem brightness_example_is_157_not_158:
  "normalize_bri (4 / 10000) (8 / 10000) = Inr 157
   \<and> spec_brightness (4 / 10000) (8 / 10000) = 158"
  by (simp add: normalize_bri_def py_int_def spec_brightness_def spec_round_def floor_eq_iff)

text \<open>
  Claim C2. With a positive capacity, a window of zeros and a new sample of zero, the
  maximum of the updated window is 0, the division by \<open>max - 0\<close> raises
  \<^verbatim>\<open>ZeroDivisionError\<close>, and nothing in the loop catches it: the iteration and the
  loop end with that error.
\<close>

theorem zero_window_divides_by_zero:
  assumes "active s" and "0 < samples s" and "\<forall>x\<in>set (energy_log s). x = 0"
    and "recv_enrg inp = 0"
  shows "breath_iter inp s = Inl ZeroDivisionError
       \<and> breath_loop (inp # inps) s = Inl ZeroDivisionError"
proof -
  from update_shape[OF assms(2), of "energy_log s" "recv_enrg inp"]
  obtain w' where u: "update_energy_log (energy_log s) (samples s) (recv_enrg inp) = Inr w'"
    and ne: "w' \<noteq> []" and sub: "set w' \<subseteq> insert (recv_enrg inp) (set (energy_log s))"
    by blast
  from sub assms(3,4) have "\<forall>x\<in>set w'. x = 0" by auto
  with ne have m: "py_max w' = Inr 0" by (rule py_max_zero)
  have "compute_target w' (last_peak s) inp = Inl ZeroDivisionError"
    by (simp add: compute_target_def m normalize_bri_def)
  then have it: "breath_iter inp s = Inl ZeroDivisionError"
    by (simp add: breath_iter_def u)
  then show ?thesis using assms(1) by simp
qed

text \<open>
  The state is reachable: five zero readings fill the log before the loop, and the
  first iteration receives a sixth.
\<close>

theorem zero_window_divides_by_zero_witness:
  "breath_loop
     [\<lparr>recv_enrg = 0, now_peak = 1, now_cond = 1, now_hue = 1, getch1 = - 1, getch2 = - 1\<rparr>]
     (breath_init [0, 0, 0, 0, 0] 0) = Inl ZeroDivisionError"
proof -
  let ?s = "breath_init [0, 0, 0, 0, 0] 0"
  let ?i = "\<lparr>recv_enrg = 0, now_peak = 1, now_cond = 1, now_hue = 1,
             getch1 = - 1, getch2 = - 1\<rparr>"
  have a: "active ?s" by (simp add: breath_init_def)
  have b: "0 < samples ?s" by (simp add: breath_init_def SAMPLES_def)
  have c: "\<forall>x\<in>set (energy_log ?s). x = 0" by (simp add: breath_init_def)
  have d: "recv_enrg ?i = 0" by simp
  from zero_window_divides_by_zero[OF a b c d, of "[]"] show ?thesis by blast
qed

section \<open>The rolling window\<close>

text \<open>
  Claim C3. For a positive capacity and a window no longer than the capacity, the update
  appends the sample when the window is below capacity, and drops the oldest sample and
  appends the new one when the window is at capacity; the updated window is never longer
  than the capacity.
\<close>

theorem window_update_fifo:
  assumes "0 < cap" and "int (length w) \<le> cap"
  shows "(int (length w) < cap \<longrightarrow> update_energy_log w cap x = Inr (w @ [x]))
       \<and> (int (length w) = cap \<longrightarrow> update_energy_log w cap x = Inr (tl w @ [x]))
       \<and> (\<exists>w'. update_energy_log w cap x = Inr w' \<and> int (length w') \<le> cap)"
  using assms by (cases w) (auto simp: update_le)

theorem window_update_fifo_witness:
  "update_energy_log [1, 2] 3 9 = Inr [1, 2, 9]
   \<and> update_energy_log [1, 2, 3] 3 9 = Inr [2, 3, 9]"
proof -
  have a: "(0::int) < 3" by simp
  have b: "int (length [1, 2 :: rat]) \<le> 3" by simp
  have c: "int (length [1, 2, 3 :: rat]) \<le> 3" by simp
  have "update_energy_log [1, 2] 3 9 = Inr [1, 2, 9]"
    using window_update_fifo[OF a b, of 9] by simp
  moreover have "update_energy_log [1, 2, 3] 3 9 = Inr [2, 3, 9]"
    using window_update_fifo[OF a c, of 9] by simp
  ultimately show ?thesis by simp
qed

text \<open>
  Claim C4, as the code has it. For a positive capacity: when the window is no longer
  than the capacity, the new sample is appended and the most recent \<open>cap\<close> samples are
  kept; when the window is longer than the capacity (the capacity was just reduced), the
  new sample is not appended, and the window is cut to the most recent \<open>cap\<close> of the
  samples it already held.
\<close>

theorem window_update_guarded_append:
  assumes "0 < cap"
  shows "(int (length w) \<le> cap \<longrightarrow> update_energy_log w cap x = Inr (last_n cap (w @ [x])))
       \<and> (int (length w) > cap \<longrightarrow> update_energy_log w cap x = Inr (last_n cap w))"
proof (intro conjI impI)
  assume le: "int (length w) \<le> cap"
  show "update_energy_log w cap x = Inr (last_n cap (w @ [x]))"
  proof (cases "int (length w) < cap")
    case True
    then have "length w + 1 - nat cap = 0" by linarith
    then show ?thesis using assms le True by (simp add: update_le last_n_def)
  next
    case False
    with le have eq: "nat cap = length w" by linarith
    then have "w \<noteq> []" using assms by auto
    then obtain y ys where w: "w = y # ys" by (cases w) auto
    show ?thesis using assms le False eq w by (simp add: update_le last_n_def)
  qed
next
  assume "int (length w) > cap"
  then show "update_energy_log w cap x = Inr (last_n cap w)"
    using assms by (simp add: update_gt last_n_def)
qed

theorem window_update_guarded_append_witness:
  "update_energy_log [1, 2, 3] 3 9 = Inr [2, 3, 9]
   \<and> update_energy_log [1, 2, 3, 4, 5] 3 9 = Inr [3, 4, 5]"
proof -
  have a: "(0::int) < 3" by simp
  have "update_energy_log [1, 2, 3] 3 9 = Inr [2, 3, 9]"
    using window_update_guarded_append[OF a, of "[1, 2, 3]" 9] by (simp add: last_n_def)
  moreover have "update_energy_log [1, 2, 3, 4, 5] 3 9 = Inr [3, 4, 5]"
    using window_update_guarded_append[OF a, of "[1, 2, 3, 4, 5]" 9] by (simp add: last_n_def)
  ultimately show ?thesis by simp
qed

text \<open>
  A window of eleven samples after the capacity went down to ten: the code drops the
  oldest sample and never stores the new one (99), where appending and then keeping the
  last ten would store it.
\<close>

theorem new_sample_dropped_after_capacity_cut:
  "update_energy_log [1, 2, 3, 4, 5, 6, 7, 8, 9, 10, 11] 10 99
     = Inr [2, 3, 4, 5, 6, 7, 8, 9, 10, 11]
   \<and> spec_append_then_enforce [1, 2, 3, 4, 5, 6, 7, 8, 9, 10, 11] 10 99
     = [3, 4, 5, 6, 7, 8, 9, 10, 11, 99]"
  by (simp add: update_energy_log_def append_sample_def evict_oldest_def truncate_log_def
      pop0_def spec_append_then_enforce_def last_n_def)

section \<open>Hue and lamp commands\<close>




text \<open>
  Claim C6, as the code has it. Let \<open>tg\<close> be the target computed from the updated
  window. The iteration completes; if the target brightness is within 2 of the cached
  brightness \<^verbatim>\<open>prev_bri\<close>, it sends nothing to the lamp and keeps the cache; otherwise
  it sends the brightness, waits 0.1 s, sends the hue, waits 0.1 s, and caches the new
  brightness. The cache is 0 on entry to the loop although setup has sent brightness
  150; after any run of the loop it is the brightness the loop sent last, or its value
  on entry when the loop sent none.
\<close>

theorem lamp_write_against_cached_brightness:
  assumes "update_energy_log (energy_log s) (samples s) (recv_enrg inp) = Inr w'"
    and "compute_target w' (last_peak s) inp = Inr tg"
  shows "(\<exists>s' ev. breath_iter inp s = Inr (s', ev) \<and>
           (if \<bar>t_bri tg - prev_bri s\<bar> \<le> 2
            then lamp_cmds ev = [] \<and> prev_bri s' = prev_bri s
            else lamp_cmds ev = [SetLight ''bri'' (t_bri tg), Sleep (1 / 10),
                                 SetLight ''hue'' (t_hue tg), Sleep (1 / 10)]
                 \<and> prev_bri s' = t_bri tg))
       \<and> prev_bri (breath_init replies now) = 0
       \<and> last_sent_bri breath_setup = Some 150
       \<and> (breath_loop inps s0 = Inr (s1, evs) \<longrightarrow>
            prev_bri s1 = (case last_sent_bri evs of None \<Rightarrow> prev_bri s0 | Some b \<Rightarrow> b))"
proof -
  from breath_iter_InrI[OF assms]
  obtain s' ev where it: "breath_iter inp s = Inr (s', ev)"
    and p: "prev_bri s' = fst (send_lamp (t_bri tg) (t_hue tg) (prev_bri s))"
    and e: "ev = SendString ''energy'' # snd (send_lamp (t_bri tg) (t_hue tg) (prev_bri s))
                @ snd (handle_key (getch1 inp) (getch2 inp) (active s) (samples s))"
    by blast
  have lc: "lamp_cmds ev = snd (send_lamp (t_bri tg) (t_hue tg) (prev_bri s))"
    using lamp_cmds_keys[of "getch1 inp" "getch2 inp" "active s" "samples s"]
      lamp_cmds_send[of "t_bri tg" "t_hue tg" "prev_bri s"]
    by (simp add: e lamp_cmds_def)
  have one: "\<exists>s' ev. breath_iter inp s = Inr (s', ev) \<and>
           (if \<bar>t_bri tg - prev_bri s\<bar> \<le> 2
            then lamp_cmds ev = [] \<and> prev_bri s' = prev_bri s
            else lamp_cmds ev = [SetLight ''bri'' (t_bri tg), Sleep (1 / 10),
                                 SetLight ''hue'' (t_hue tg), Sleep (1 / 10)]
                 \<and> prev_bri s' = t_bri tg)"
    using it p lc by (auto simp: send_lamp_def)
  have two: "prev_bri (breath_init replies now) = 0"
    by (simp add: breath_init_def)
  have three: "last_sent_bri breath_setup = Some 150"
    by (simp add: breath_setup_def)
  have four: "breath_loop inps s0 = Inr (s1, evs) \<longrightarrow>
            prev_bri s1 = (case last_sent_bri evs of None \<Rightarrow> prev_bri s0 | Some b \<Rightarrow> b)"
    using breath_loop_prev_bri by blast
  from one two three four show ?thesis by blast
qed

text \<open>
  Target brightness 255: from a cached 0 the iteration writes brightness and hue, from
  a cached 254 it writes nothing.
\<close>

theorem lamp_write_against_cached_brightness_witness:
  "(\<exists>s' ev. breath_iter
       \<lparr>recv_enrg = 2 / 10000, now_peak = 1, now_cond = 5, now_hue = 5,
        getch1 = 224, getch2 = 80\<rparr>
       (breath_init [0, 0, 8 / 10000, 2 / 10000, 2 / 10000] 0) = Inr (s', ev)
     \<and> lamp_cmds ev = [SetLight ''bri'' 255, Sleep (1 / 10), SetLight ''hue'' 50090,
                       Sleep (1 / 10)]
     \<and> prev_bri s' = 255)
   \<and> (\<exists>s' ev. breath_iter
       \<lparr>recv_enrg = 2 / 10000, now_peak = 1, now_cond = 5, now_hue = 5,
        getch1 = - 1, getch2 = - 1\<rparr>
       ((breath_init [0, 0, 8 / 10000, 2 / 10000, 2 / 10000] 0)\<lparr>prev_bri := 254\<rparr>)
         = Inr (s', ev)
     \<and> lamp_cmds ev = [] \<and> prev_bri s' = 254)"
proof -
  let ?i = "\<lparr>recv_enrg = 2 / 10000, now_peak = 1, now_cond = 5, now_hue = 5,
             getch1 = 224, getch2 = 80\<rparr>"
  let ?j = "\<lparr>recv_enrg = 2 / 10000, now_peak = 1, now_cond = 5, now_hue = 5,
             getch1 = - 1, getch2 = - 1\<rparr>"
  let ?s = "breath_init [0, 0, 8 / 10000, 2 / 10000, 2 / 10000] 0"
  let ?t = "?s\<lparr>prev_bri := 254\<rparr>"
  let ?w = "[0, 0, 8 / 10000, 2 / 10000, 2 / 10000, 2 / 10000]"
  let ?tg = "\<lparr>t_bri = 255, t_hue = 50090, t_last_peak = 1\<rparr>"
  have u1: "update_energy_log (energy_log ?s) (samples ?s) (recv_enrg ?i) = Inr ?w"
    by code_simp
  have t1: "compute_target ?w (last_peak ?s) ?i = Inr ?tg"
    by code_simp
  have u2: "update_energy_log (energy_log ?t) (samples ?t) (recv_enrg ?j) = Inr ?w"
    by code_simp
  have t2: "compute_target ?w (last_peak ?t) ?j = Inr ?tg"
    by code_simp
  have p1: "prev_bri ?s = 0" by (simp add: breath_init_def)
  have p2: "prev_bri ?t = 254" by simp
  have "\<exists>s' ev. breath_iter ?i ?s = Inr (s', ev)
     \<and> lamp_cmds ev = [SetLight ''bri'' 255, Sleep (1 / 10), SetLight ''hue'' 50090,
                       Sleep (1 / 10)]
     \<and> prev_bri s' = 255"
    using lamp_write_against_cached_brightness[OF u1 t1] unfolding p1 by simp
  moreover have "\<exists>s' ev. breath_iter ?j ?t = Inr (s', ev)
     \<and> lamp_cmds ev = [] \<and> prev_bri s' = 254"
    using lamp_write_against_cached_brightness[OF u2 t2] unfolding p2 by simp
  ultimately show ?thesis by simp
qed

text \<open>
  Setup has sent brightness 150; the first iteration computes the target brightness 150
  (smoothed 473, maximum 1024) and writes it to the lamp again, because the cache holds 0.
\<close>

theorem first_iteration_resends_brightness_150:
  "last_sent_bri breath_setup = Some 150
   \<and> compute_target [1024, 1024, 473, 473, 473, 473] 0
       \<lparr>recv_enrg = 473, now_peak = 1, now_cond = 1, now_hue = 1, getch1 = - 1, getch2 = - 1\<rparr>
     = Inr \<lparr>t_bri = 150, t_hue = 43690, t_last_peak = 1\<rparr>
   \<and> breath_iter
       \<lparr>recv_enrg = 473, now_peak = 1, now_cond = 1, now_hue = 1, getch1 = - 1, getch2 = - 1\<rparr>
       (breath_init [1024, 1024, 473, 473, 473] 0)
     = Inr (\<lparr>energy_log = [1024, 1024, 473, 473, 473, 473], samples = 60, prev_bri = 150,
             hue = 43690, last_peak = 1, active = True\<rparr>,
            [SendString ''energy'', SetLight ''bri'' 150, Sleep (1 / 10),
             SetLight ''hue'' 43690, Sleep (1 / 10)])"
  by code_simp

section \<open>Key presses\<close>



section \<open>The acquisition service\<close>

text \<open>
  Claim C8, as the code has it. In a pass that starts with no reply owed: with no
  request waiting the service triggers a capture and stores the new reading; a request
  \<^verbatim>\<open>energy\<close> is answered with the stored reading, once there is one; a request that is
  neither \<^verbatim>\<open>stop\<close> nor \<^verbatim>\<open>energy\<close> changes nothing, sends nothing and is left
  unanswered. Whenever a request was received, no capture is triggered and the stored
  reading stays as it was. A pass that starts with a reply owed ends with
  \<^verbatim>\<open>ZMQError\<close>; so the loop does not continue after a request that is neither
  \<^verbatim>\<open>stop\<close> nor \<^verbatim>\<open>energy\<close>: the next pass ends the service.
\<close>

theorem service_pass:
  "(\<not> reply_pending s \<longrightarrow> server_iter None r s = Inr (s\<lparr>energy := Some r\<rparr>, [Trigger]))
   \<and> (\<not> reply_pending s \<and> energy s = Some e \<longrightarrow>
        server_iter (Some ''energy'') r s = Inr (s, [SendPyobj e]))
   \<and> (\<not> reply_pending s \<and> m \<noteq> ''stop'' \<and> m \<noteq> ''energy'' \<longrightarrow>
        server_iter (Some m) r s = Inr (s\<lparr>reply_pending := True\<rparr>, []))
   \<and> (server_iter (Some m) r s = Inr (s', ev) \<longrightarrow> Trigger \<notin> set ev \<and> energy s' = energy s)
   \<and> (reply_pending s \<longrightarrow> server_iter wire r s = Inl ZMQError)
   \<and> (capture s \<and> \<not> reply_pending s \<and> m \<noteq> ''stop'' \<and> m \<noteq> ''energy'' \<longrightarrow>
        server_loop ((Some m, r) # (wire, r') # rest) s = Inl ZMQError)"
proof -
  have a: "\<not> reply_pending s \<longrightarrow> server_iter None r s = Inr (s\<lparr>energy := Some r\<rparr>, [Trigger])"
    by (simp add: server_iter_def rep_recv_def)
  have b: "\<not> reply_pending s \<and> energy s = Some e \<longrightarrow>
        server_iter (Some ''energy'') r s = Inr (s, [SendPyobj e])"
    by (simp add: server_iter_def rep_recv_def rep_send_def)
  have c: "\<not> reply_pending s \<and> m \<noteq> ''stop'' \<and> m \<noteq> ''energy'' \<longrightarrow>
        server_iter (Some m) r s = Inr (s\<lparr>reply_pending := True\<rparr>, [])"
    by (simp add: server_iter_def rep_recv_def)
  have d: "server_iter (Some m) r s = Inr (s', ev) \<longrightarrow> Trigger \<notin> set ev \<and> energy s' = energy s"
    by (auto simp: server_iter_def rep_recv_def rep_send_def split: option.splits if_splits)
  have e: "reply_pending s \<longrightarrow> server_iter wire r s = Inl ZMQError"
    by (simp add: server_iter_pending)
  have f: "capture s \<and> \<not> reply_pending s \<and> m \<noteq> ''stop'' \<and> m \<noteq> ''energy'' \<longrightarrow>
        server_loop ((Some m, r) # (wire, r') # rest) s = Inl ZMQError"
  proof
    assume h: "capture s \<and> \<not> reply_pending s \<and> m \<noteq> ''stop'' \<and> m \<noteq> ''energy''"
    with c have i: "server_iter (Some m) r s = Inr (s\<lparr>reply_pending := True\<rparr>, [])" by simp
    have "server_iter wire r' (s\<lparr>reply_pending := True\<rparr>) = Inl ZMQError"
      by (simp add: server_iter_pending)
    with h i show "server_loop ((Some m, r) # (wire, r') # rest) s = Inl ZMQError"
      by simp
  qed
  from a b c d e f show ?thesis by blast
qed

theorem service_pass_witness:
  "server_iter (Some ''energy'') 9 \<lparr>capture = True, energy = Some 5, reply_pending = False\<rparr>
     = Inr (\<lparr>capture = True, energy = Some 5, reply_pending = False\<rparr>, [SendPyobj 5])
   \<and> server_iter (Some ''hello'') 9 \<lparr>capture = True, energy = Some 5, reply_pending = False\<rparr>
     = Inr (\<lparr>capture = True, energy = Some 5, reply_pending = True\<rparr>, [])
   \<and> server_loop [(Some ''hello'', 9), (Some ''energy'', 9)]
       \<lparr>capture = True, energy = Some 5, reply_pending = False\<rparr> = Inl ZMQError"
proof -
  let ?s = "\<lparr>capture = True, energy = Some 5, reply_pending = False\<rparr>"
  have "server_iter (Some ''energy'') 9 ?s = Inr (?s, [SendPyobj 5])"
    using service_pass[of ?s 9 5] by simp
  moreover have "server_iter (Some ''hello'') 9 ?s
     = Inr (\<lparr>capture = True, energy = Some 5, reply_pending = True\<rparr>, [])"
    using service_pass[of ?s 9 _ "''hello''"] by simp
  moreover have "server_loop [(Some ''hello'', 9), (Some ''energy'', 9)] ?s = Inl ZMQError"
  proof -
    have h: "capture ?s \<and> \<not> reply_pending ?s \<and> ''hello'' \<noteq> ''stop''
        \<and> ''hello'' \<noteq> ''energy''" by simp
    from service_pass[of ?s 9 _ "''hello''" _ _ "Some ''energy''" 9 "[]"] h
    show ?thesis by blast
  qed
  ultimately show ?thesis by simp
qed

text \<open>
  From the initial state, a request \<^verbatim>\<open>hello\<close> is left unanswered and the next pass
  ends the loop, and with it the run, with \<^verbatim>\<open>ZMQError\<close>: the loop does not continue.
\<close>

theorem unknown_request_ends_service:
  "server_loop [(Some ''hello'', 1), (None, 2)] server_init = Inl ZMQError
   \<and> server_run [(Some ''hello'', 1), (None, 2), (Some ''stop'', 3)] = Inl ZMQError"
  by (simp add: server_run_def server_iter_def rep_recv_def server_init_def)

text \<open>
  Claim C10. If the first message the service loop receives is \<^verbatim>\<open>energy\<close>, the loop and
  the whole run end with a \<^verbatim>\<open>NameError\<close>. A request \<^verbatim>\<open>energy\<close> raises it exactly when
  the request is received and \<^verbatim>\<open>energy\<close> is still unassigned, and in a run from the
  initial state \<^verbatim>\<open>energy\<close> is unassigned exactly when no capture has been triggered yet.
\<close>

theorem energy_request_before_first_capture:
  "server_loop ((Some ''energy'', r) # rest) server_init = Inl NameError
   \<and> server_run ((Some ''energy'', r) # rest) = Inl NameError
   \<and> (server_iter (Some ''energy'') r s = Inl NameError)
       = (\<not> reply_pending s \<and> energy s = None)
   \<and> (server_loop inputs server_init = Inr (s', ev) \<longrightarrow>
        (energy s' = None) = (Trigger \<notin> set ev))"
proof -
  have a: "server_loop ((Some ''energy'', r) # rest) server_init = Inl NameError"
    by (simp add: server_iter_def rep_recv_def server_init_def)
  then have b: "server_run ((Some ''energy'', r) # rest) = Inl NameError"
    by (simp add: server_run_def)
  have c: "(server_iter (Some ''energy'') r s = Inl NameError)
       = (\<not> reply_pending s \<and> energy s = None)"
    by (auto simp: server_iter_def rep_recv_def rep_send_def split: option.splits)
  have d: "server_loop inputs server_init = Inr (s', ev) \<longrightarrow>
        (energy s' = None) = (Trigger \<notin> set ev)"
    using server_loop_energy[of inputs server_init s' ev] by (simp add: server_init_def)
  from a b c d show ?thesis by simp
qed

text \<open>After one capture the request is answered with the captured reading.\<close>

theorem energy_request_before_first_capture_witness:
  "server_loop [(None, 3), (Some ''energy'', 4)] server_init
     = Inr (\<lparr>capture = True, energy = Some 3, reply_pending = False\<rparr>, [Trigger, SendPyobj 3])
   \<and> (energy \<lparr>capture = True, energy = Some 3, reply_pending = False\<rparr> = None)
       = (Trigger \<notin> set [Trigger, SendPyobj 3])"
proof -
  have l: "server_loop [(None, 3), (Some ''energy'', 4)] server_init
     = Inr (\<lparr>capture = True, energy = Some 3, reply_pending = False\<rparr>, [Trigger, SendPyobj 3])"
    by (simp add: server_iter_def rep_recv_def rep_send_def server_init_def)
  from energy_request_before_first_capture[of 0 "[]" _ "[(None, 3), (Some ''energy'', 4)]"
      "\<lparr>capture = True, energy = Some 3, reply_pending = False\<rparr>" "[Trigger, SendPyobj 3]"] l
  have "(energy \<lparr>capture = True, energy = Some 3, reply_pending = False\<rparr> = None)
       = (Trigger \<notin> set [Trigger, SendPyobj 3])" by blast
  with l show ?thesis by simp
qed

section \<open>Shutdown\<close>

text \<open>
  Claim C9. The client sends \<^verbatim>\<open>stop\<close> and reads the reply: on \<^verbatim>\<open>stopped\<close> it joins the
  service process and exits with code 0; on any other reply it terminates the service
  process and exits with code 1.
\<close>

theorem shutdown_exit_codes:
  "shutdown ''stopped'' = ([SendString ''stop'', Join, Print ''Done!''], 0)
   \<and> (reply \<noteq> ''stopped'' \<longrightarrow> shutdown reply = ([SendString ''stop'', Terminate], 1))"
  by (simp add: shutdown_def)

theorem shutdown_exit_codes_witness:
  "shutdown ''busy'' = ([SendString ''stop'', Terminate], 1)"
  using shutdown_exit_codes[of "''busy''"] by simp

end
